theory Spec2Isabelle
  imports Complex_Main "HOL-Library.Word"
begin

section \<open>The board image encoder of \<^verbatim>\<open>image/image.go\<close>\<close>

text \<open>
  A shallow embedding of the Go package \<^verbatim>\<open>image\<close>: the option constructors, the
  configuration resolver \<^verbatim>\<open>new\<close>, the entry point \<^verbatim>\<open>SVG\<close>, the encoder loop
  \<^verbatim>\<open>Encode\<close> and its helpers. Go's run-time panics are values of type \<open>panic\<close>, returned
  on the left of a sum; the calls a run makes on the output format, on the canvas and on
  the writer are recorded, in order, as a list of events.
\<close>

subsection \<open>Data of the external collaborators\<close>

text \<open>
  Modelled from the spec: the chess package (\<^verbatim>\<open>chess.Square\<close>, \<^verbatim>\<open>chess.Piece\<close>, files
  and ranks) is not part of the source. The spec describes a square as an index 0..63
  that derives a file (0..7, the column) and a rank (0..7, the row) by fixed arithmetic,
  and a piece as a (colour, type) pair or the sentinel "no piece". The arithmetic is the
  usual numbering of the board, row by row from a1: the file is the index modulo 8 and
  the rank is the index divided by 8. Files and ranks are kept as numbers:
  \<^verbatim>\<open>chess.FileA\<close> and \<^verbatim>\<open>chess.Rank1\<close> are 0.
\<close>

type_synonym square = nat

definition File :: "square \<Rightarrow> nat" where
  "File sq = sq mod 8"

definition Rank :: "square \<Rightarrow> nat" where
  "Rank sq = sq div 8"

text \<open>Modelled from the spec: the rank digit and the file letter drawn as labels.\<close>

definition Rank_String :: "nat \<Rightarrow> string" where
  "Rank_String r = take 1 (drop r ''12345678'')"

definition File_String :: "nat \<Rightarrow> string" where
  "File_String f = take 1 (drop f ''abcdefgh'')"

datatype piece_color = White | Black

datatype piece_type = King | Queen | Rook | Bishop | Knight | Pawn

datatype piece = NoPiece | Piece piece_color piece_type

text \<open>
  Modelled from the spec: the colour letter of the glyph naming convention
  (\<^verbatim>\<open>w\<close> or \<^verbatim>\<open>b\<close>), which the source takes from \<^verbatim>\<open>p.Color().String()\<close>.
\<close>

fun Color_String :: "piece_color \<Rightarrow> string" where
  "Color_String White = ''w''"
| "Color_String Black = ''b''"

text \<open>The table \<^verbatim>\<open>pieceTypeMap\<close> of the source.\<close>

fun pieceTypeMap :: "piece_type \<Rightarrow> string" where
  "pieceTypeMap King = ''K''"
| "pieceTypeMap Queen = ''Q''"
| "pieceTypeMap Rook = ''R''"
| "pieceTypeMap Bishop = ''B''"
| "pieceTypeMap Knight = ''N''"
| "pieceTypeMap Pawn = ''P''"

text \<open>
  A board is what \<^verbatim>\<open>b.SquareMap()\<close> returns: a Go map from the occupied squares to
  their pieces. Reading a key that is absent gives the zero value, \<^verbatim>\<open>chess.NoPiece\<close>.
\<close>

type_synonym board = "square \<rightharpoonup> piece"

definition SquareMap :: "board \<Rightarrow> board" where
  "SquareMap b = b"

definition piece_at :: "board \<Rightarrow> square \<Rightarrow> piece" where
  "piece_at boardMap sq = (case boardMap sq of None \<Rightarrow> NoPiece | Some p \<Rightarrow> p)"

subsection \<open>Colours and their hexadecimal form\<close>

text \<open>
  A colour is Go's \<^verbatim>\<open>color.RGBA\<close>: four bytes. Its method \<^verbatim>\<open>RGBA()\<close> widens every
  byte \<open>v\<close> to the 16-bit value \<open>v * 0x101\<close> (the standard library computes
  \<^verbatim>\<open>r = uint32(c.R); r |= r << 8\<close>).
\<close>

datatype color = RGBA "8 word" "8 word" "8 word" "8 word"

fun color_RGBA :: "color \<Rightarrow> nat \<times> nat \<times> nat \<times> nat" where
  "color_RGBA (RGBA r g b a) = (unat r * 257, unat g * 257, unat b * 257, unat a * 257)"

text \<open>
  \<^verbatim>\<open>uint8(f)\<close> on a non-negative \<^verbatim>\<open>float64\<close>: the fraction is dropped and, as the Go
  compilers implement the conversion for a value beyond 255, the low eight bits are kept.
  The floats that occur here are \<open>n\<close> and \<open>n + 0.5\<close> for \<open>n < 65536\<close>, which
  \<^verbatim>\<open>float64\<close> represents exactly, so the reals stand for them without rounding.
\<close>

definition uint8_of_float :: "real \<Rightarrow> nat" where
  "uint8_of_float v = nat \<lfloor>v\<rfloor> mod 256"

definition hex_digit :: "nat \<Rightarrow> char" where
  "hex_digit n = ''0123456789abcdef'' ! (n mod 16)"

text \<open>The verb \<^verbatim>\<open>%02x\<close> on a byte: two lower-case hexadecimal digits.\<close>

definition fmt_02x :: "nat \<Rightarrow> string" where
  "fmt_02x n = [hex_digit (n div 16), hex_digit n]"

definition colorToHex :: "color \<Rightarrow> string" where
  "colorToHex c =
     (case color_RGBA c of (r, g, b, _) \<Rightarrow>
        ''#'' @ fmt_02x (uint8_of_float (real r + 0.5))
              @ fmt_02x (uint8_of_float (real g * 1.0 + 0.5))
              @ fmt_02x (uint8_of_float (real b * 1.0 + 0.5)))"

subsection \<open>Configuration, encoder and options\<close>

record config =
  sqWidth :: int
  sqHeight :: int
  flip :: bool
  light :: color
  dark :: color

text \<open>
  The encoder holds a map and a pointer; either may be \<^verbatim>\<open>nil\<close>, which is \<open>None\<close>.
\<close>

record encoder =
  marks :: "(square \<rightharpoonup> color) option"
  cfg :: "config option"

datatype panic = NilPointerDereference | NilMapAssignment | AssetNotFound string

text \<open>
  An option is a function on the configuration and the encoder it is handed. Both are
  passed by pointer and updated in place; the model returns the updated pair, or the
  panic that stopped the update.
\<close>

type_synonym Option = "config \<Rightarrow> encoder \<Rightarrow> panic + (config \<times> encoder)"

definition Flip :: Option where
  "Flip = (\<lambda>c e. Inr (c\<lparr>flip := True\<rparr>, e))"

definition SquareColors :: "color \<Rightarrow> color \<Rightarrow> Option" where
  "SquareColors l d = (\<lambda>c e. Inr (c\<lparr>light := l, dark := d\<rparr>, e))"

text \<open>
  The loop of \<^verbatim>\<open>MarkSquares\<close>: \<^verbatim>\<open>e.marks[sq] = c\<close> for every square given. Go
  panics on an assignment to an entry of a \<^verbatim>\<open>nil\<close> map.
\<close>

fun mark_each :: "color \<Rightarrow> square list \<Rightarrow> encoder \<Rightarrow> panic + encoder" where
  "mark_each c [] e = Inr e"
| "mark_each c (sq # sqs) e =
     (case marks e of
        None \<Rightarrow> Inl NilMapAssignment
      | Some m \<Rightarrow> mark_each c sqs (e\<lparr>marks := Some (m(sq \<mapsto> c))\<rparr>))"

definition MarkSquares :: "color \<Rightarrow> square list \<Rightarrow> Option" where
  "MarkSquares c sqs =
     (\<lambda>cf e. case mark_each c sqs e of Inl p \<Rightarrow> Inl p | Inr e' \<Rightarrow> Inr (cf, e'))"

definition boardSize :: "encoder \<Rightarrow> panic + (int \<times> int)" where
  "boardSize e =
     (case cfg e of
        None \<Rightarrow> Inl NilPointerDereference
      | Some c \<Rightarrow> Inr (sqWidth c * 8, sqHeight c * 8))"

definition default_config :: config where
  "default_config =
     \<lparr>sqWidth = 45, sqHeight = 45, flip = False,
      light = RGBA 235 209 166 1, dark = RGBA 165 117 81 1\<rparr>"

text \<open>
  The first loop of \<^verbatim>\<open>new\<close>: every option runs on the configuration and on a fresh
  \<^verbatim>\<open>&encoder{}\<close>, whose map and pointer are both \<^verbatim>\<open>nil\<close>; that encoder is dropped.
\<close>

fun apply_to_scratch :: "Option list \<Rightarrow> config \<Rightarrow> panic + config" where
  "apply_to_scratch [] c = Inr c"
| "apply_to_scratch (op # ops) c =
     (case op c \<lparr>marks = None, cfg = None\<rparr> of
        Inl p \<Rightarrow> Inl p
      | Inr (c', _) \<Rightarrow> apply_to_scratch ops c')"

text \<open>The second loop of \<^verbatim>\<open>new\<close>: every option runs on the encoder that is returned.\<close>

fun apply_to_encoder :: "Option list \<Rightarrow> config \<Rightarrow> encoder \<Rightarrow> panic + (config \<times> encoder)" where
  "apply_to_encoder [] c e = Inr (c, e)"
| "apply_to_encoder (op # ops) c e =
     (case op c e of
        Inl p \<Rightarrow> Inl p
      | Inr (c', e') \<Rightarrow> apply_to_encoder ops c' e')"

text \<open>
  \<^verbatim>\<open>new\<close> returns the encoder alone. The configuration is a local of \<^verbatim>\<open>new\<close>: the
  encoder literal sets \<^verbatim>\<open>marks\<close> only, so its \<^verbatim>\<open>cfg\<close> stays \<^verbatim>\<open>nil\<close> unless an
  option stores one.
\<close>

definition new :: "Option list \<Rightarrow> panic + encoder" where
  "new options =
     (case apply_to_scratch options default_config of
        Inl p \<Rightarrow> Inl p
      | Inr c \<Rightarrow>
          (case apply_to_encoder options c \<lparr>marks = Some Map.empty, cfg = None\<rparr> of
             Inl p \<Rightarrow> Inl p
           | Inr (_, e) \<Rightarrow> Inr e))"

subsection \<open>What a run does to its environment\<close>

text \<open>
  The calls of a run, in the order they are made: the two methods of the \<^verbatim>\<open>Format\<close>
  the encoder is given that \<^verbatim>\<open>Encode\<close> calls, the calls on the canvas
  (\<^verbatim>\<open>Rect\<close>, \<^verbatim>\<open>Text\<close>, \<^verbatim>\<open>End\<close>) and \<^verbatim>\<open>io.WriteString\<close> on the canvas's writer.
\<close>

datatype event =
    FormatInit
  | FormatDrawSquare int int color
  | CanvasRect int int int int string
  | WriteString string
  | CanvasText int int string string
  | CanvasEnd

text \<open>
  A Go \<^verbatim>\<open>error\<close> value is its message. The environment (the format and the writer
  behind the canvas) decides which calls fail: from the calls made so far and the call
  being made, it gives the error that call returns, if any.
\<close>

type_synonym error = string

type_synonym sink = "event list \<Rightarrow> event \<Rightarrow> error option"

text \<open>
  The embedded glyph documents, by file name. \<^verbatim>\<open>internal.MustAsset\<close> panics on a
  name it does not hold.
\<close>

type_synonym assets = "string \<Rightarrow> string option"

subsection \<open>Formatting helpers of the Go library\<close>

text \<open>Go's integer division truncates towards zero.\<close>

definition go_div :: "int \<Rightarrow> int \<Rightarrow> int" where
  "go_div a b = sgn a * sgn b * (\<bar>a\<bar> div \<bar>b\<bar>)"

text \<open>
  A natural number in decimal. The decimal digits are the first ten of \<open>hex_digit\<close>.
\<close>

function dec_nat :: "nat \<Rightarrow> string" where
  "dec_nat n = (if n < 10 then [hex_digit n] else dec_nat (n div 10) @ [hex_digit (n mod 10)])"
  by pat_completeness auto
termination
  by (relation "measure id") auto

text \<open>The verb \<^verbatim>\<open>%d\<close>.\<close>

definition fmt_d :: "int \<Rightarrow> string" where
  "fmt_d i = (if i < 0 then ''-'' @ dec_nat (nat (- i)) else dec_nat (nat i))"

text \<open>
  \<^verbatim>\<open>strings.Replace(s, old, new, 1)\<close> for a non-empty \<open>old\<close>: the first occurrence of
  \<open>old\<close> in \<open>s\<close> is replaced by \<open>rep\<close>, and \<open>s\<close> is returned as it is when there is none.
\<close>

fun replace_first :: "string \<Rightarrow> string \<Rightarrow> string \<Rightarrow> string" where
  "replace_first old rep [] = []"
| "replace_first old rep (c # cs) =
     (if take (length old) (c # cs) = old then rep @ drop (length old) (c # cs)
      else c # replace_first old rep cs)"

subsection \<open>The helpers of the encoder\<close>

definition colorForSquare :: "encoder \<Rightarrow> square \<Rightarrow> panic + color" where
  "colorForSquare e sq =
     (case cfg e of
        None \<Rightarrow> Inl NilPointerDereference
      | Some c \<Rightarrow>
          (let sqSum = int (File sq) + int (Rank sq)
           in if sqSum mod 2 = 0 then Inr (dark c) else Inr (light c)))"

definition colorForText :: "encoder \<Rightarrow> square \<Rightarrow> panic + color" where
  "colorForText e sq =
     (case cfg e of
        None \<Rightarrow> Inl NilPointerDereference
      | Some c \<Rightarrow>
          (let sqSum = int (File sq) + int (Rank sq)
           in if sqSum mod 2 = 0 then Inr (light c) else Inr (dark c)))"

definition xyForSquare :: "square \<Rightarrow> int \<times> int" where
  "xyForSquare sq =
     (let fileIndex = int (File sq);
          rankIndex = 7 - int (Rank sq)
      in (fileIndex, rankIndex))"

text \<open>
  The file name that \<^verbatim>\<open>pieceXML\<close> builds with \<^verbatim>\<open>fmt.Sprintf\<close>. \<^verbatim>\<open>Encode\<close> calls
  \<^verbatim>\<open>pieceXML\<close> for a piece only; for \<^verbatim>\<open>chess.NoPiece\<close> the table has no entry and
  the colour prints as a dash.
\<close>

fun pieceFileName :: "piece \<Rightarrow> string" where
  "pieceFileName (Piece col ty) = ''pieces/'' @ Color_String col @ pieceTypeMap ty @ ''.svg''"
| "pieceFileName NoPiece = ''pieces/-.svg''"

definition old_tag :: string where
  \<open>old_tag = ''<svg xmlns="http://www.w3.org/2000/svg" version="1.1" width="45" height="45">''\<close>

definition new_tag :: "int \<Rightarrow> int \<Rightarrow> string" where
  \<open>new_tag a b =
     ''<svg xmlns="http://www.w3.org/2000/svg" version="1.1" width="360" height="360" viewBox="''
       @ fmt_d a @ '' '' @ fmt_d b @ '' 360 360">''\<close>

definition pieceXML :: "assets \<Rightarrow> int \<Rightarrow> int \<Rightarrow> piece \<Rightarrow> panic + string" where
  "pieceXML assets x y p =
     (let fileName = pieceFileName p in
      case assets fileName of
        None \<Rightarrow> Inl (AssetNotFound fileName)
      | Some svgStr \<Rightarrow> Inr (replace_first old_tag (new_tag (-1 * x) (-1 * y)) svgStr))"

subsection \<open>The loop of \<^verbatim>\<open>Encode\<close>\<close>

text \<open>
  The source names \<^verbatim>\<open>sqWidth\<close>, \<^verbatim>\<open>sqHeight\<close>, \<^verbatim>\<open>e.dark\<close> and \<^verbatim>\<open>e.light\<close>
  without declaring them; they are read as the fields of the encoder's configuration,
  as \<^verbatim>\<open>SVG\<close> reads \<^verbatim>\<open>e.cfg.sqWidth\<close>.

  The highlight of a marked square: \<^verbatim>\<open>markColor, ok := e.marks[sq]\<close> and the
  rectangle drawn when \<^verbatim>\<open>ok\<close>. Reading a \<^verbatim>\<open>nil\<close> map finds nothing.
\<close>

definition mark_overlay :: "encoder \<Rightarrow> square \<Rightarrow> int \<Rightarrow> int \<Rightarrow> panic + event list" where
  "mark_overlay e sq x y =
     (case (case marks e of None \<Rightarrow> None | Some m \<Rightarrow> m sq) of
        None \<Rightarrow> Inr []
      | Some markColor \<Rightarrow>
          (case cfg e of
             None \<Rightarrow> Inl NilPointerDereference
           | Some c \<Rightarrow>
               Inr [CanvasRect x y (sqWidth c) (sqHeight c)
                      (''fill-opacity:0.2;fill: '' @ colorToHex markColor)]))"

text \<open>
  The piece of a square: its document is written to the canvas's writer, and the error
  of that write, if any, is what the encoder returns.
\<close>

definition write_piece ::
  "board \<Rightarrow> assets \<Rightarrow> sink \<Rightarrow> square \<Rightarrow> int \<Rightarrow> int \<Rightarrow> event list
     \<Rightarrow> panic + (event list \<times> error option)" where
  "write_piece boardMap assets snk sq x y tr =
     (let p = piece_at boardMap sq in
      if p \<noteq> NoPiece then
        (case pieceXML assets x y p of
           Inl q \<Rightarrow> Inl q
         | Inr xml \<Rightarrow> Inr (tr @ [WriteString xml], snk tr (WriteString xml)))
      else Inr (tr, None))"

text \<open>The rank digit on file A and the file letter on rank 1.\<close>

definition text_labels :: "encoder \<Rightarrow> square \<Rightarrow> int \<Rightarrow> int \<Rightarrow> panic + event list" where
  "text_labels e sq x y =
     (case colorForText e sq of
        Inl q \<Rightarrow> Inl q
      | Inr txtColor \<Rightarrow>
          (case cfg e of
             None \<Rightarrow> Inl NilPointerDereference
           | Some c \<Rightarrow>
               Inr ((if File sq = 0 then
                       [CanvasText (x + go_div (sqWidth c * 1) 20) (y + go_div (sqHeight c * 5) 20)
                          (Rank_String (Rank sq))
                          (''font-size:11px;fill: '' @ colorToHex txtColor)]
                     else [])
                    @ (if Rank sq = 0 then
                         [CanvasText (x + go_div (sqWidth c * 19) 20)
                            (y + sqHeight c - go_div (sqHeight c * 1) 15)
                            (File_String (File sq))
                            (''text-anchor:end;font-size:11px;fill: '' @ colorToHex txtColor)]
                       else []))))"

text \<open>
  One iteration of the loop, for the square \<open>sq\<close>, after the calls \<open>tr\<close>. The value that
  \<^verbatim>\<open>f.DrawSquare\<close> returns is not read by the source, so the answer of the
  environment to that call has no part in the result. The second component is the
  error of an early \<^verbatim>\<open>return err\<close>.
\<close>

definition encode_square ::
  "encoder \<Rightarrow> board \<Rightarrow> assets \<Rightarrow> sink \<Rightarrow> square \<Rightarrow> event list
     \<Rightarrow> panic + (event list \<times> error option)" where
  "encode_square e boardMap assets snk sq tr =
     (case xyForSquare sq of (x, y) \<Rightarrow>
       (case colorForSquare e sq of
          Inl q \<Rightarrow> Inl q
        | Inr c \<Rightarrow>
            (case mark_overlay e sq x y of
               Inl q \<Rightarrow> Inl q
             | Inr ov \<Rightarrow>
                 (case write_piece boardMap assets snk sq x y (tr @ [FormatDrawSquare x y c] @ ov) of
                    Inl q \<Rightarrow> Inl q
                  | Inr (tr', Some err) \<Rightarrow> Inr (tr', Some err)
                  | Inr (tr', None) \<Rightarrow>
                      (case text_labels e sq x y of
                         Inl q \<Rightarrow> Inl q
                       | Inr ls \<Rightarrow> Inr (tr' @ ls, None))))))"

function encode_loop ::
  "encoder \<Rightarrow> board \<Rightarrow> assets \<Rightarrow> sink \<Rightarrow> nat \<Rightarrow> event list
     \<Rightarrow> panic + (event list \<times> error option)" where
  "encode_loop e boardMap assets snk i tr =
     (if i < 64 then
        (case encode_square e boardMap assets snk i tr of
           Inl q \<Rightarrow> Inl q
         | Inr (tr', Some err) \<Rightarrow> Inr (tr', Some err)
         | Inr (tr', None) \<Rightarrow> encode_loop e boardMap assets snk (i + 1) tr')
      else Inr (tr @ [CanvasEnd], None))"
  by pat_completeness auto
termination
  by (relation "measure (\<lambda>(e, boardMap, assets, snk, i, tr). 64 - i)") auto

declare encode_loop.simps [simp del]

text \<open>
  \<^verbatim>\<open>Encode\<close>. When \<^verbatim>\<open>f.Init()\<close> fails the source builds a wrapped error with
  \<^verbatim>\<open>fmt.Errorf\<close> and drops it: there is no \<^verbatim>\<open>return\<close> in that branch, so the loop
  runs all the same. The result is the calls made and the error returned
  (\<open>None\<close> is \<^verbatim>\<open>nil\<close>).
\<close>

definition Encode ::
  "encoder \<Rightarrow> board \<Rightarrow> assets \<Rightarrow> sink \<Rightarrow> panic + (event list \<times> error option)" where
  "Encode e b assets snk =
     (case boardSize e of
        Inl q \<Rightarrow> Inl q
      | Inr (boardWidth, boardHeight) \<Rightarrow>
          (let boardMap = SquareMap b;
               dropped = (case snk [] FormatInit of
                            None \<Rightarrow> None
                          | Some err \<Rightarrow> Some (''failed to init output formatter: '' @ err))
           in encode_loop e boardMap assets snk 0 [FormatInit]))"

text \<open>
  The entry point. The format it builds reads \<^verbatim>\<open>e.cfg.sqWidth\<close> and
  \<^verbatim>\<open>e.cfg.sqHeight\<close>; the writer and that format are the environment \<open>w\<close>.
\<close>

definition SVG :: "assets \<Rightarrow> sink \<Rightarrow> board \<Rightarrow> Option list \<Rightarrow> panic + (event list \<times> error option)" where
  "SVG assets w b opts =
     (case new opts of
        Inl q \<Rightarrow> Inl q
      | Inr e \<Rightarrow>
          (case boardSize e of
             Inl q \<Rightarrow> Inl q
           | Inr (boardWidth, boardHeight) \<Rightarrow>
               (case cfg e of
                  None \<Rightarrow> Inl NilPointerDereference
                | Some c \<Rightarrow> Encode e b assets w)))"

section \<open>Observing a run\<close>

subsection \<open>The calls of one iteration\<close>

text \<open>
  The calls that the iteration for a square makes, read off the helpers above: the fill,
  the highlight, the piece document and the labels. An iteration that returns early
  stops after the piece document.
\<close>

definition fill_events :: "encoder \<Rightarrow> square \<Rightarrow> event list" where
  "fill_events e sq =
     (case xyForSquare sq of (x, y) \<Rightarrow>
        (case colorForSquare e sq of Inl q \<Rightarrow> [] | Inr c \<Rightarrow> [FormatDrawSquare x y c]))"

definition overlay_events :: "encoder \<Rightarrow> square \<Rightarrow> event list" where
  "overlay_events e sq =
     (case xyForSquare sq of (x, y) \<Rightarrow>
        (case mark_overlay e sq x y of Inl q \<Rightarrow> [] | Inr ov \<Rightarrow> ov))"

definition piece_events :: "board \<Rightarrow> assets \<Rightarrow> square \<Rightarrow> event list" where
  "piece_events boardMap assets sq =
     (case xyForSquare sq of (x, y) \<Rightarrow>
        (if piece_at boardMap sq \<noteq> NoPiece then
           (case pieceXML assets x y (piece_at boardMap sq) of
              Inl q \<Rightarrow> []
            | Inr xml \<Rightarrow> [WriteString xml])
         else []))"

definition label_events :: "encoder \<Rightarrow> square \<Rightarrow> event list" where
  "label_events e sq =
     (case xyForSquare sq of (x, y) \<Rightarrow>
        (case text_labels e sq x y of Inl q \<Rightarrow> [] | Inr ls \<Rightarrow> ls))"

definition square_prefix :: "encoder \<Rightarrow> board \<Rightarrow> assets \<Rightarrow> square \<Rightarrow> event list" where
  "square_prefix e boardMap assets sq =
     fill_events e sq @ overlay_events e sq @ piece_events boardMap assets sq"

definition square_events :: "encoder \<Rightarrow> board \<Rightarrow> assets \<Rightarrow> square \<Rightarrow> event list" where
  "square_events e boardMap assets sq =
     square_prefix e boardMap assets sq @ label_events e sq"

text \<open>The calls of the iterations \<open>i\<close> up to \<open>n - 1\<close>, one block after the other.\<close>

definition blocks :: "(nat \<Rightarrow> event list) \<Rightarrow> nat \<Rightarrow> nat \<Rightarrow> event list" where
  "blocks B i n = concat (map B [i..<n])"

definition completed_trace :: "encoder \<Rightarrow> board \<Rightarrow> assets \<Rightarrow> event list" where
  "completed_trace e b assets =
     FormatInit # blocks (square_events e b assets) 0 64 @ [CanvasEnd]"

definition aborted_trace :: "encoder \<Rightarrow> board \<Rightarrow> assets \<Rightarrow> nat \<Rightarrow> event list" where
  "aborted_trace e b assets k =
     FormatInit # blocks (square_events e b assets) 0 k @ square_prefix e b assets k"

subsection \<open>What the specification expects to see\<close>

text \<open>
  The fill the specification describes for a square: at the grid cell (file, 7 - rank),
  in the dark colour when file + rank is even and in the light colour otherwise.
\<close>

definition square_fill :: "config \<Rightarrow> square \<Rightarrow> event" where
  "square_fill c sq =
     FormatDrawSquare (int (File sq)) (7 - int (Rank sq))
       (if even (File sq + Rank sq) then dark c else light c)"

text \<open>The mark of a square, if the encoder holds one.\<close>

definition marked :: "encoder \<Rightarrow> square \<Rightarrow> color option" where
  "marked e sq = (case marks e of None \<Rightarrow> None | Some m \<Rightarrow> m sq)"

text \<open>
  The highlight the specification describes for a marked square: a rectangle of one
  square's size at the coordinates of the square, in the mark colour at opacity 0.2.
\<close>

definition mark_rect :: "config \<Rightarrow> square \<Rightarrow> color \<Rightarrow> event" where
  "mark_rect c sq markColor =
     CanvasRect (int (File sq)) (7 - int (Rank sq)) (sqWidth c) (sqHeight c)
       (''fill-opacity:0.2;fill: '' @ colorToHex markColor)"

fun is_fill :: "event \<Rightarrow> bool" where
  "is_fill (FormatDrawSquare x y c) = True"
| "is_fill ev = False"

fun is_piece_draw :: "event \<Rightarrow> bool" where
  "is_piece_draw (WriteString xml) = True"
| "is_piece_draw ev = False"

fun overlay_at :: "int \<times> int \<Rightarrow> event \<Rightarrow> bool" where
  "overlay_at xy (CanvasRect x y w h style) = ((x, y) = xy)"
| "overlay_at xy ev = False"

text \<open>The square a fill belongs to, from its grid cell.\<close>

fun fill_square :: "event \<Rightarrow> nat" where
  "fill_square (FormatDrawSquare x y c) = nat ((7 - y) * 8 + x)"
| "fill_square ev = 0"

subsection \<open>The options the package exports\<close>

text \<open>
  \<^verbatim>\<open>config\<close> and \<^verbatim>\<open>encoder\<close> are not exported, so the option values a caller can
  pass are the results of the three constructors.
\<close>

datatype option_value =
    FlipOption
  | SquareColorsOption color color
  | MarkSquaresOption color "square list"

fun option_of :: "option_value \<Rightarrow> Option" where
  "option_of FlipOption = Flip"
| "option_of (SquareColorsOption l d) = SquareColors l d"
| "option_of (MarkSquaresOption c sqs) = MarkSquares c sqs"

subsection \<open>Concrete inputs\<close>

text \<open>
  An encoder that holds the default configuration, one that also marks square 0 in red,
  a glyph store whose document for a file name is the opening tag followed by that
  name, and three environments: one where no call fails, one where every write to the
  writer fails, and one where every call on the format fails.
\<close>

definition default_encoder :: encoder where
  "default_encoder = \<lparr>marks = Some Map.empty, cfg = Some default_config\<rparr>"


definition demo_assets :: assets where
  "demo_assets name = Some (old_tag @ name)"

definition quiet :: sink where
  "quiet tr ev = None"


definition broken_format :: sink where
  "broken_format tr ev =
     (case ev of
        FormatInit \<Rightarrow> Some ''init failed''
      | FormatDrawSquare x y c \<Rightarrow> Some ''draw failed''
      | _ \<Rightarrow> None)"

section \<open>How a run unfolds\<close>

subsection \<open>One iteration and the loop\<close>

lemma encode_square_done:
  assumes "encode_square e bm as snk sq tr = Inr (tr', None)"
  shows "tr' = tr @ square_events e bm as sq"
  using assms
  by (auto simp: encode_square_def square_events_def square_prefix_def fill_events_def
        overlay_events_def piece_events_def label_events_def write_piece_def Let_def
      split: prod.splits sum.splits option.splits if_splits)

lemma encode_square_abort:
  assumes "encode_square e bm as snk sq tr = Inr (tr', Some err)"
  shows "tr' = tr @ square_prefix e bm as sq \<and> piece_at bm sq \<noteq> NoPiece"
  using assms
  by (auto simp: encode_square_def square_prefix_def fill_events_def
        overlay_events_def piece_events_def write_piece_def Let_def
      split: prod.splits sum.splits option.splits if_splits)

lemma blocks_step: "i < n \<Longrightarrow> blocks B i n = B i @ blocks B (Suc i) n"
  by (simp add: blocks_def upt_conv_Cons)

lemma blocks_snoc: "i \<le> n \<Longrightarrow> blocks B i (Suc n) = blocks B i n @ B n"
  by (simp add: blocks_def)

lemma blocks_empty: "n \<le> i \<Longrightarrow> blocks B i n = []"
  by (simp add: blocks_def)

lemma encode_loop_done:
  "encode_loop e bm as snk i tr = Inr (tr', None)
   \<Longrightarrow> tr' = tr @ blocks (square_events e bm as) i 64 @ [CanvasEnd]"
proof (induction e bm as snk i tr rule: encode_loop.induct)
  case (1 e bm as snk i tr)
  show ?case
  proof (cases "i < 64")
    case False
    with "1.prems" show ?thesis
      by (simp add: encode_loop.simps [of e bm as snk i tr] blocks_empty)
  next
    case True
    from "1.prems" True obtain tr1 where
      step: "encode_square e bm as snk i tr = Inr (tr1, None)" and
      rest: "encode_loop e bm as snk (i + 1) tr1 = Inr (tr', None)"
      by (auto simp: encode_loop.simps [of e bm as snk i tr] split: sum.splits option.splits)
    from "1.IH" [OF True step refl refl rest]
    have "tr' = tr1 @ blocks (square_events e bm as) (i + 1) 64 @ [CanvasEnd]" .
    with encode_square_done [OF step] True show ?thesis
      by (simp add: blocks_step)
  qed
qed

lemma encode_loop_abort:
  "encode_loop e bm as snk i tr = Inr (tr', Some err)
   \<Longrightarrow> \<exists>k. i \<le> k \<and> k < 64 \<and> piece_at bm k \<noteq> NoPiece
         \<and> tr' = tr @ blocks (square_events e bm as) i k @ square_prefix e bm as k"
proof (induction e bm as snk i tr rule: encode_loop.induct)
  case (1 e bm as snk i tr)
  show ?case
  proof (cases "i < 64")
    case False
    with "1.prems" show ?thesis
      by (simp add: encode_loop.simps [of e bm as snk i tr])
  next
    case True
    from "1.prems" True consider
      (stop) "encode_square e bm as snk i tr = Inr (tr', Some err)"
      | (go) tr1 where "encode_square e bm as snk i tr = Inr (tr1, None)"
          "encode_loop e bm as snk (i + 1) tr1 = Inr (tr', Some err)"
      by (auto simp: encode_loop.simps [of e bm as snk i tr] split: sum.splits option.splits)
    then show ?thesis
    proof cases
      case stop
      from encode_square_abort [OF stop] True show ?thesis
        by (intro exI [of _ i]) (simp add: blocks_empty)
    next
      case go
      from "1.IH" [OF True go(1) refl refl go(2)] obtain k where
        k: "i + 1 \<le> k" "k < 64" "piece_at bm k \<noteq> NoPiece"
           "tr' = tr1 @ blocks (square_events e bm as) (i + 1) k @ square_prefix e bm as k"
        by blast
      with encode_square_done [OF go(1)] show ?thesis
        by (intro exI [of _ k]) (simp add: blocks_step)
    qed
  qed
qed

subsection \<open>An encoder that holds a configuration\<close>

lemma colorForSquare_cfg:
  "colorForSquare e sq = Inr (if even (File sq + Rank sq) then dark c else light c)"
  if "cfg e = Some c"
proof -
  have "(int (File sq) + int (Rank sq)) mod 2 = 0 \<longleftrightarrow> even (File sq + Rank sq)"
    by presburger
  then show ?thesis
    using that by (simp add: colorForSquare_def Let_def)
qed

lemma fill_events_cfg: "cfg e = Some c \<Longrightarrow> fill_events e sq = [square_fill c sq]"
  by (simp add: fill_events_def xyForSquare_def colorForSquare_cfg square_fill_def)

lemma overlay_events_cfg:
  "cfg e = Some c \<Longrightarrow>
   overlay_events e sq = (case marked e sq of None \<Rightarrow> [] | Some mc \<Rightarrow> [mark_rect c sq mc])"
  by (simp add: overlay_events_def xyForSquare_def mark_overlay_def marked_def mark_rect_def
      split: option.splits)

lemma mark_overlay_cfg: "cfg e = Some c \<Longrightarrow> \<exists>ov. mark_overlay e sq x y = Inr ov"
  by (simp add: mark_overlay_def split: option.splits)

lemma text_labels_cfg: "cfg e = Some c \<Longrightarrow> \<exists>ls. text_labels e sq x y = Inr ls"
  by (simp add: text_labels_def colorForText_def Let_def)

lemma write_piece_ok:
  assumes "piece_at bm sq = NoPiece
           \<or> (as (pieceFileName (piece_at bm sq)) \<noteq> None \<and> (\<forall>tr xml. snk tr (WriteString xml) = None))"
  shows "\<exists>evs. write_piece bm as snk sq x y tr = Inr (tr @ evs, None)"
  using assms by (auto simp: write_piece_def pieceXML_def Let_def)

lemma encode_square_ok:
  assumes c: "cfg e = Some c"
    and cover: "piece_at bm sq = NoPiece
           \<or> (as (pieceFileName (piece_at bm sq)) \<noteq> None \<and> (\<forall>tr xml. snk tr (WriteString xml) = None))"
  shows "encode_square e bm as snk sq tr = Inr (tr @ square_events e bm as sq, None)"
proof -
  obtain x y where xy: "xyForSquare sq = (x, y)"
    by (cases "xyForSquare sq")
  obtain ov where ov: "mark_overlay e sq x y = Inr ov"
    using mark_overlay_cfg [OF c] by blast
  obtain ls where ls: "text_labels e sq x y = Inr ls"
    using text_labels_cfg [OF c] by blast
  obtain evs where
    wp: "write_piece bm as snk sq x y (tr @ [FormatDrawSquare x y (if even (File sq + Rank sq) then dark c else light c)] @ ov)
         = Inr ((tr @ [FormatDrawSquare x y (if even (File sq + Rank sq) then dark c else light c)] @ ov) @ evs, None)"
    using write_piece_ok [of bm sq as snk x y] cover by blast
  have "\<exists>tr'. encode_square e bm as snk sq tr = Inr (tr', None)"
    using xy ov ls wp by (simp add: encode_square_def colorForSquare_cfg [OF c])
  then obtain tr' where run: "encode_square e bm as snk sq tr = Inr (tr', None)"
    by blast
  from encode_square_done [OF run] run show ?thesis
    by simp
qed

lemma encode_loop_total:
  assumes c: "cfg e = Some c"
    and cover: "\<forall>sq<64. piece_at bm sq = NoPiece
           \<or> (as (pieceFileName (piece_at bm sq)) \<noteq> None \<and> (\<forall>tr xml. snk tr (WriteString xml) = None))"
  shows "encode_loop e bm as snk i tr = Inr (tr @ blocks (square_events e bm as) i 64 @ [CanvasEnd], None)"
proof (induction "64 - i" arbitrary: i tr)
  case 0
  then show ?case
    by (simp add: encode_loop.simps [of e bm as snk i tr] blocks_empty)
next
  case (Suc n)
  then have lt: "i < 64" by simp
  with cover have "piece_at bm i = NoPiece
      \<or> (as (pieceFileName (piece_at bm i)) \<noteq> None \<and> (\<forall>tr xml. snk tr (WriteString xml) = None))"
    by blast
  then have step: "encode_square e bm as snk i tr = Inr (tr @ square_events e bm as i, None)"
    using encode_square_ok [of e c bm i as snk tr] c by blast
  from Suc have "n = 64 - (i + 1)" by simp
  then have "encode_loop e bm as snk (i + 1) (tr @ square_events e bm as i)
        = Inr ((tr @ square_events e bm as i) @ blocks (square_events e bm as) (i + 1) 64 @ [CanvasEnd], None)"
    by (rule Suc.hyps(1))
  with lt step show ?case
    by (simp add: encode_loop.simps [of e bm as snk i tr] blocks_step)
qed

lemma Encode_cfg: "Encode e b as snk = Inr (tr, r) \<Longrightarrow> cfg e \<noteq> None"
  by (auto simp: Encode_def boardSize_def split: option.splits)

lemma Encode_loop: "cfg e = Some c \<Longrightarrow> Encode e b as snk = encode_loop e b as snk 0 [FormatInit]"
  by (simp add: Encode_def boardSize_def SquareMap_def Let_def)

lemma Encode_done:
  "Encode e b as snk = Inr (tr, None) \<Longrightarrow> tr = completed_trace e b as"
  using Encode_cfg [of e b as snk tr None] encode_loop_done [of e b as snk 0 "[FormatInit]" tr]
  by (auto simp: Encode_loop completed_trace_def)

lemma Encode_abort:
  "Encode e b as snk = Inr (tr, Some err)
   \<Longrightarrow> \<exists>k<64. piece_at b k \<noteq> NoPiece \<and> tr = aborted_trace e b as k"
  using Encode_cfg [of e b as snk tr "Some err"]
    encode_loop_abort [of e b as snk 0 "[FormatInit]" tr err]
  by (auto simp: Encode_loop aborted_trace_def)

lemma Encode_total:
  assumes "cfg e = Some c"
    and "\<forall>sq<64. piece_at b sq = NoPiece
           \<or> (as (pieceFileName (piece_at b sq)) \<noteq> None \<and> (\<forall>tr xml. snk tr (WriteString xml) = None))"
  shows "Encode e b as snk = Inr (completed_trace e b as, None)"
  using encode_loop_total [of e c b as snk 0 "[FormatInit]"] assms
  by (simp add: Encode_loop completed_trace_def)

lemma Encode_empty_default:
  "Encode default_encoder Map.empty as snk = Inr (completed_trace default_encoder Map.empty as, None)"
  by (rule Encode_total [of _ default_config]) (simp_all add: default_encoder_def piece_at_def)

subsection \<open>Selecting calls from a run\<close>

lemma filter_blocks: "filter P (blocks B i n) = blocks (\<lambda>k. filter P (B k)) i n"
  by (simp add: blocks_def filter_concat comp_def)

lemma blocks_single: "blocks (\<lambda>k. [f k]) i n = map f [i..<n]"
  by (simp add: blocks_def)

lemma blocks_nil: "blocks (\<lambda>k. []) i n = []"
  by (simp add: blocks_def)

lemma blocks_cong: "(\<And>k. i \<le> k \<Longrightarrow> k < n \<Longrightarrow> B k = B' k) \<Longrightarrow> blocks B i n = blocks B' i n"
  unfolding blocks_def by (rule arg_cong [where f = concat]) simp

lemma blocks_only:
  "sq < n \<Longrightarrow> blocks (\<lambda>k. if k = sq then X else []) 0 n = X"
proof (induction n)
  case 0
  then show ?case by simp
next
  case (Suc n)
  show ?case
  proof (cases "sq = n")
    case True
    have "blocks (\<lambda>k. if k = sq then X else []) 0 n = blocks (\<lambda>k. []) 0 n"
      using True by (auto intro!: blocks_cong)
    with True show ?thesis
      by (simp add: blocks_snoc blocks_nil)
  next
    case False
    with Suc show ?thesis
      by (simp add: blocks_snoc)
  qed
qed



lemma text_labels_text:
  "text_labels e sq x y = Inr ls \<Longrightarrow> ev \<in> set ls \<Longrightarrow> \<exists>a b t s. ev = CanvasText a b t s"
  by (cases "colorForText e sq"; cases "cfg e") (auto simp: text_labels_def split: if_splits)

lemma label_events_text:
  assumes "ev \<in> set (label_events e sq)"
  shows "\<exists>x y t s. ev = CanvasText x y t s"
proof -
  obtain x y where xy: "xyForSquare sq = (x, y)"
    by (cases "xyForSquare sq")
  show ?thesis
  proof (cases "text_labels e sq x y")
    case (Inl q)
    with assms xy show ?thesis
      by (simp add: label_events_def)
  next
    case (Inr ls)
    with assms xy have "ev \<in> set ls"
      by (simp add: label_events_def)
    with Inr show ?thesis
      by (rule text_labels_text)
  qed
qed

lemma piece_events_cases:
  "piece_events b as sq = [] \<or> (\<exists>xml. piece_events b as sq = [WriteString xml])"
  by (simp add: piece_events_def split: prod.split sum.split)

lemma piece_events_write:
  assumes "ev \<in> set (piece_events b as sq)"
  shows "\<exists>xml. ev = WriteString xml"
  using assms piece_events_cases [of b as sq] by auto

lemma filter_fill_labels [simp]: "filter is_fill (label_events e sq) = []"
  by (auto simp: filter_empty_conv dest: label_events_text)

lemma filter_fill_pieces [simp]: "filter is_fill (piece_events b as sq) = []"
  by (auto simp: filter_empty_conv dest: piece_events_write)

lemma filter_piece_labels [simp]: "filter is_piece_draw (label_events e sq) = []"
  by (auto simp: filter_empty_conv dest: label_events_text)

lemma filter_piece_pieces [simp]: "filter is_piece_draw (piece_events b as sq) = piece_events b as sq"
  by (auto simp: filter_id_conv dest: piece_events_write)

lemma filter_overlay_labels [simp]: "filter (overlay_at xy) (label_events e sq) = []"
  by (auto simp: filter_empty_conv dest: label_events_text)

lemma filter_overlay_pieces [simp]: "filter (overlay_at xy) (piece_events b as sq) = []"
  by (auto simp: filter_empty_conv dest: piece_events_write)


lemma xyForSquare_eq: "xyForSquare sq = (int (File sq), 7 - int (Rank sq))"
  by (simp add: xyForSquare_def Let_def)

lemma fills_of_square:
  assumes "cfg e = Some c"
  shows "filter is_fill (square_prefix e b as sq) = [square_fill c sq]"
    and "filter is_fill (square_events e b as sq) = [square_fill c sq]"
  using assms
  by (simp_all add: square_events_def square_prefix_def fill_events_cfg overlay_events_cfg
      square_fill_def mark_rect_def split: option.splits)

lemma pieces_of_square:
  assumes "cfg e = Some c"
  shows "filter is_piece_draw (square_events e b as sq) = piece_events b as sq"
  using assms
  by (simp add: square_events_def square_prefix_def fill_events_cfg overlay_events_cfg
      square_fill_def mark_rect_def split: option.splits)


lemma fills_completed:
  "cfg e = Some c \<Longrightarrow> filter is_fill (completed_trace e b as) = map (square_fill c) [0..<64]"
  by (simp add: completed_trace_def filter_blocks fills_of_square blocks_single)

lemma fills_aborted:
  "cfg e = Some c \<Longrightarrow> filter is_fill (aborted_trace e b as k) = map (square_fill c) [0..<Suc k]"
  by (simp add: aborted_trace_def filter_blocks fills_of_square blocks_single)

lemma pieces_completed:
  "cfg e = Some c \<Longrightarrow> filter is_piece_draw (completed_trace e b as) = blocks (piece_events b as) 0 64"
  by (simp add: completed_trace_def filter_blocks pieces_of_square)

lemma fill_square_fill [simp]: "fill_square (square_fill c sq) = sq"
proof -
  have "int (sq div 8) * 8 + int (sq mod 8) = int sq"
    by presburger
  then show ?thesis
    by (simp add: square_fill_def File_def Rank_def)
qed


subsection \<open>Glyph documents and number formatting\<close>

lemma replace_first_prefix: "old \<noteq> [] \<Longrightarrow> replace_first old rep (old @ rest) = rep @ rest"
  by (cases old) simp_all

lemma old_tag_nonempty: "old_tag \<noteq> []"
  by (simp add: old_tag_def)

lemma pieceXML_demo: "pieceXML demo_assets x y p = Inr (new_tag (- x) (- y) @ pieceFileName p)"
  by (simp add: pieceXML_def demo_assets_def replace_first_prefix old_tag_nonempty)

lemma fmt_d_digit_neg: "0 < n \<Longrightarrow> n < 10 \<Longrightarrow> fmt_d (- int n) = CHR ''-'' # [hex_digit n]"
  by (simp add: fmt_d_def)


subsection \<open>Option lists\<close>

lemma mark_each_cfg: "mark_each col sqs e = Inr e' \<Longrightarrow> cfg e' = cfg e"
  by (induction sqs arbitrary: e) (auto split: option.splits)

lemma option_of_cfg: "option_of v c e = Inr (c', e') \<Longrightarrow> cfg e' = cfg e"
  by (cases v) (auto simp: Flip_def SquareColors_def MarkSquares_def split: sum.splits dest: mark_each_cfg)

lemma apply_to_encoder_cfg:
  "apply_to_encoder (map option_of vs) c e = Inr (c', e') \<Longrightarrow> cfg e' = cfg e"
proof (induction vs arbitrary: c e)
  case Nil
  then show ?case by simp
next
  case (Cons v vs)
  then show ?case
    by (auto split: sum.splits dest: option_of_cfg)
qed

lemma new_cfg_nil: "new (map option_of vs) = Inr e \<Longrightarrow> cfg e = None"
  by (auto simp: new_def split: sum.splits dest: apply_to_encoder_cfg)

lemma apply_to_scratch_append:
  "apply_to_scratch (os @ os') c =
     (case apply_to_scratch os c of Inl p \<Rightarrow> Inl p | Inr c1 \<Rightarrow> apply_to_scratch os' c1)"
  by (induction os arbitrary: c) (auto split: sum.splits)

lemma apply_to_encoder_append:
  "apply_to_encoder (os @ os') c e =
     (case apply_to_encoder os c e of Inl p \<Rightarrow> Inl p | Inr (c1, e1) \<Rightarrow> apply_to_encoder os' c1 e1)"
  by (induction os arbitrary: c e) (auto split: sum.splits)

lemma option_of_config_free:
  "map_sum id snd (option_of v c e) = map_sum id snd (option_of v c' e)"
  by (cases v) (auto simp: Flip_def SquareColors_def MarkSquares_def split: sum.splits)

lemma apply_to_encoder_config_free:
  "map_sum id snd (apply_to_encoder (map option_of vs) c e)
   = map_sum id snd (apply_to_encoder (map option_of vs) c' e)"
proof (induction vs arbitrary: c c' e)
  case Nil
  then show ?case by simp
next
  case (Cons v vs)
  show ?case
  proof (cases "option_of v c e")
    case (Inl p)
    with option_of_config_free [of v c e c'] show ?thesis
      by (cases "option_of v c' e") auto
  next
    case (Inr r)
    obtain c1 e1 where r: "r = (c1, e1)" by (cases r)
    with Inr option_of_config_free [of v c e c'] obtain c1' where
      "option_of v c' e = Inr (c1', e1)"
      by (cases "option_of v c' e") auto
    with Inr r Cons.IH [of c1 e1 c1'] show ?thesis
      by simp
  qed
qed

lemma new_encoder:
  "new os = (case apply_to_scratch os default_config of
               Inl p \<Rightarrow> Inl p
             | Inr c \<Rightarrow> map_sum id snd (apply_to_encoder os c \<lparr>marks = Some Map.empty, cfg = None\<rparr>))"
  by (auto simp: new_def split: sum.splits)

lemma new_append_Flip: "new (map option_of vs @ [Flip]) = new (map option_of vs)"
proof (cases "apply_to_scratch (map option_of vs) default_config")
  case (Inl p)
  then show ?thesis
    by (simp add: new_encoder apply_to_scratch_append)
next
  case (Inr c1)
  let ?e0 = "\<lparr>marks = Some Map.empty, cfg = None\<rparr>"
  have first: "apply_to_scratch (map option_of vs @ [Flip]) default_config = Inr (c1\<lparr>flip := True\<rparr>)"
    using Inr by (simp add: apply_to_scratch_append Flip_def)
  have "map_sum id snd (apply_to_encoder (map option_of vs @ [Flip]) (c1\<lparr>flip := True\<rparr>) ?e0)
        = map_sum id snd (apply_to_encoder (map option_of vs) (c1\<lparr>flip := True\<rparr>) ?e0)"
    by (cases "apply_to_encoder (map option_of vs) (c1\<lparr>flip := True\<rparr>) ?e0")
      (auto simp: apply_to_encoder_append Flip_def)
  also have "\<dots> = map_sum id snd (apply_to_encoder (map option_of vs) c1 ?e0)"
    by (rule apply_to_encoder_config_free)
  finally show ?thesis
    using Inr first by (simp add: new_encoder)
qed

lemma encode_square_flip:
  "encode_square (e\<lparr>cfg := Some (c\<lparr>flip := v\<rparr>)\<rparr>) b as snk sq tr
   = encode_square (e\<lparr>cfg := Some c\<rparr>) b as snk sq tr"
proof -
  let ?e' = "e\<lparr>cfg := Some (c\<lparr>flip := v\<rparr>)\<rparr>" and ?e = "e\<lparr>cfg := Some c\<rparr>"
  have col: "colorForSquare ?e' sq = colorForSquare ?e sq"
    by (simp add: colorForSquare_def)
  have ov: "mark_overlay ?e' sq x y = mark_overlay ?e sq x y" for x y
    by (simp add: mark_overlay_def split: option.splits)
  have ls: "text_labels ?e' sq x y = text_labels ?e sq x y" for x y
    by (simp add: text_labels_def colorForText_def)
  show ?thesis
    unfolding encode_square_def col ov ls ..
qed

lemma encode_loop_flip:
  "encode_loop (e\<lparr>cfg := Some (c\<lparr>flip := v\<rparr>)\<rparr>) b as snk i tr
   = encode_loop (e\<lparr>cfg := Some c\<rparr>) b as snk i tr"
proof (induction "64 - i" arbitrary: i tr)
  case 0
  then show ?case
    by (simp add: encode_loop.simps [of _ b as snk i tr])
next
  case (Suc n)
  then have "n = 64 - (i + 1)" by simp
  then have "encode_loop (e\<lparr>cfg := Some (c\<lparr>flip := v\<rparr>)\<rparr>) b as snk (i + 1) tr'
             = encode_loop (e\<lparr>cfg := Some c\<rparr>) b as snk (i + 1) tr'" for tr'
    by (rule Suc.hyps(1))
  then show ?case
    by (simp add: encode_loop.simps [of _ b as snk i tr] encode_square_flip
        split: sum.splits option.splits)
qed

section \<open>The claims\<close>

subsection \<open>Square colours and grid coordinates\<close>

text \<open>
  C1. For every square, the fill colour passed to the square draw is the configured dark
  colour when file + rank is even and the configured light colour when it is odd; the
  rule is fixed, and only the two colours come from the configuration.

  On an encoder that holds a configuration \<open>c\<close>, \<open>colorForSquare\<close> gives the colour of
  that rule, and in every run of \<open>Encode\<close> the square draws issued are, in order, those
  of the squares \<open>0\<close> to \<open>n - 1\<close> for some \<open>n\<close> up to 64, each with the grid cell of
  its square and the colour of the rule.
\<close>

theorem fill_color_by_parity:
  assumes "cfg e = Some c"
  shows "colorForSquare e sq = Inr (if even (File sq + Rank sq) then dark c else light c)
       \<and> (\<forall>tr r. Encode e b as snk = Inr (tr, r) \<longrightarrow>
            (\<exists>n\<le>64. filter is_fill tr =
               map (\<lambda>sq. FormatDrawSquare (fst (xyForSquare sq)) (snd (xyForSquare sq))
                            (if even (File sq + Rank sq) then dark c else light c)) [0..<n]))"
proof (intro conjI allI impI)
  show "colorForSquare e sq = Inr (if even (File sq + Rank sq) then dark c else light c)"
    using assms by (rule colorForSquare_cfg)
next
  fix tr r
  assume run: "Encode e b as snk = Inr (tr, r)"
  have fill: "(\<lambda>sq. FormatDrawSquare (fst (xyForSquare sq)) (snd (xyForSquare sq))
                (if even (File sq + Rank sq) then dark c else light c)) = square_fill c"
    by (simp add: square_fill_def xyForSquare_eq fun_eq_iff)
  show "\<exists>n\<le>64. filter is_fill tr =
          map (\<lambda>sq. FormatDrawSquare (fst (xyForSquare sq)) (snd (xyForSquare sq))
                       (if even (File sq + Rank sq) then dark c else light c)) [0..<n]"
    unfolding fill
  proof (cases r)
    case None
    with run have "tr = completed_trace e b as"
      by (simp add: Encode_done)
    with assms have "filter is_fill tr = map (square_fill c) [0..<64]"
      by (simp add: fills_completed)
    then show "\<exists>n\<le>64. filter is_fill tr = map (square_fill c) [0..<n]"
      by blast
  next
    case (Some err)
    with run obtain k where k: "k < 64" "tr = aborted_trace e b as k"
      using Encode_abort by blast
    with assms have "filter is_fill tr = map (square_fill c) [0..<Suc k]"
      by (simp add: fills_aborted)
    with k(1) show "\<exists>n\<le>64. filter is_fill tr = map (square_fill c) [0..<n]"
      by (intro exI [of _ "Suc k"]) simp
  qed
qed

theorem fill_color_by_parity_witness:
  "colorForSquare default_encoder 0 = Inr (RGBA 165 117 81 1)
   \<and> colorForSquare default_encoder 1 = Inr (RGBA 235 209 166 1)
   \<and> (\<exists>tr r n. Encode default_encoder Map.empty demo_assets quiet = Inr (tr, r) \<and> n \<le> 64
        \<and> filter is_fill tr =
            map (\<lambda>sq. FormatDrawSquare (fst (xyForSquare sq)) (snd (xyForSquare sq))
                         (if even (File sq + Rank sq) then dark default_config else light default_config)) [0..<n])"
proof -
  have c: "cfg default_encoder = Some default_config"
    by (simp add: default_encoder_def)
  have "colorForSquare default_encoder 0 = Inr (RGBA 165 117 81 1)"
    using fill_color_by_parity [OF c, of 0] by (simp add: File_def Rank_def default_config_def)
  moreover have "colorForSquare default_encoder 1 = Inr (RGBA 235 209 166 1)"
    using fill_color_by_parity [OF c, of 1] by (simp add: File_def Rank_def default_config_def)
  moreover have "\<exists>tr r n. Encode default_encoder Map.empty demo_assets quiet = Inr (tr, r) \<and> n \<le> 64
        \<and> filter is_fill tr =
            map (\<lambda>sq. FormatDrawSquare (fst (xyForSquare sq)) (snd (xyForSquare sq))
                         (if even (File sq + Rank sq) then dark default_config else light default_config)) [0..<n]"
    using fill_color_by_parity [OF c, of 0 Map.empty demo_assets quiet] Encode_empty_default [of demo_assets quiet]
    by blast
  ultimately show ?thesis by blast
qed

text \<open>
  C2. For every square, the grid coordinates the encoder computes are x = the file index
  (0 to 7) and y = 7 - the rank index, so that rank 8 (index 7) is the top row, y = 0,
  and rank 1 (index 0) is the bottom row, y = 7. The flip flag has no part in it:
  \<open>xyForSquare\<close> has the square as its only argument. Every iteration of the loop that
  returns has issued its square draw at these coordinates.
\<close>

theorem grid_coordinates:
  assumes "sq < 64"
  shows "xyForSquare sq = (int (File sq), 7 - int (Rank sq))
       \<and> File sq \<le> 7 \<and> Rank sq \<le> 7
       \<and> 0 \<le> snd (xyForSquare sq) \<and> snd (xyForSquare sq) \<le> 7
       \<and> (snd (xyForSquare sq) = 0 \<longleftrightarrow> Rank sq = 7)
       \<and> (snd (xyForSquare sq) = 7 \<longleftrightarrow> Rank sq = 0)
       \<and> (\<forall>tr tr' r. encode_square e b as snk sq tr = Inr (tr', r) \<longrightarrow>
             (\<exists>c rest. tr' = tr @ FormatDrawSquare (int (File sq)) (7 - int (Rank sq)) c # rest))"
proof -
  have f: "File sq \<le> 7" and r: "Rank sq \<le> 7"
    using assms by (simp_all add: File_def Rank_def)
  have draw: "\<exists>c rest. tr' = tr @ FormatDrawSquare (int (File sq)) (7 - int (Rank sq)) c # rest"
    if "encode_square e b as snk sq tr = Inr (tr', r)" for tr tr' r
    using that
    by (auto simp: encode_square_def xyForSquare_eq write_piece_def Let_def
        split: sum.splits option.splits if_splits)
  from f r draw show ?thesis
    by (auto simp: xyForSquare_eq)
qed

theorem grid_coordinates_witness:
  "xyForSquare 0 = (0, 7) \<and> xyForSquare 63 = (7, 0) \<and> xyForSquare 12 = (4, 6)"
  using grid_coordinates [of 0] grid_coordinates [of 63] grid_coordinates [of 12]
  by (simp add: File_def Rank_def)

subsection \<open>The squares a run visits\<close>




subsection \<open>Errors of the format\<close>

text \<open>
  C4. The claim: if a call on the sink (its initialisation or a square draw) returns an
  error, the encoder returns that first error and draws nothing more. The source does
  otherwise: the error of \<^verbatim>\<open>f.Init()\<close> is wrapped and dropped, and the result of
  \<^verbatim>\<open>f.DrawSquare\<close> is not read. With a format whose every call fails and an empty
  board, \<open>Encode\<close> issues all 64 square draws and returns \<^verbatim>\<open>nil\<close>.
\<close>

theorem failing_format_is_not_reported:
  "broken_format [] FormatInit = Some ''init failed''
   \<and> (\<exists>tr. Encode default_encoder Map.empty as broken_format = Inr (tr, None)
         \<and> length (filter is_fill tr) = 64)"
proof -
  have "length (filter is_fill (completed_trace default_encoder Map.empty as)) = 64"
    by (simp add: fills_completed [of _ default_config] default_encoder_def)
  then show ?thesis
    using Encode_empty_default [of as broken_format] by (simp add: broken_format_def)
qed

subsection \<open>The entry point and the configuration resolver\<close>

text \<open>
  C5. The claim: for every board and every option list the entry point writes a complete
  document and returns an error only on a write or sink failure. The source does
  otherwise: the encoder that \<open>new\<close> returns has no configuration, so \<open>SVG\<close> panics
  in \<open>boardSize\<close> (or earlier, in \<open>new\<close>) on every board and every list of exported
  options, and never returns.
\<close>

theorem SVG_never_returns:
  "SVG as w b [] = Inl NilPointerDereference \<and> isl (SVG as w b (map option_of vs))"
proof -
  have "isl (SVG as w b (map option_of vs))"
  proof (cases "new (map option_of vs)")
    case (Inl p)
    then show ?thesis by (simp add: SVG_def)
  next
    case (Inr e)
    then have "cfg e = None" by (rule new_cfg_nil)
    with Inr show ?thesis by (simp add: SVG_def boardSize_def)
  qed
  moreover have "SVG as w b [] = Inl NilPointerDereference"
    by (simp add: SVG_def new_def boardSize_def)
  ultimately show ?thesis by simp
qed

text \<open>
  C9. The claim: for every sequence of options the configuration is resolved without a
  failure and a fully populated pair of configuration and marks is returned. The source
  does otherwise: a \<open>MarkSquares\<close> option with at least one square panics in the first
  loop of \<open>new\<close>, which hands it an encoder whose map is \<^verbatim>\<open>nil\<close>; and with no
  option at all the encoder returned holds no configuration.
\<close>

theorem new_panics_on_marked_square:
  "new (MarkSquares c (sq # sqs) # opts) = Inl NilMapAssignment
   \<and> new [] = Inr \<lparr>marks = Some Map.empty, cfg = None\<rparr>"
  by (simp add: new_def MarkSquares_def)

subsection \<open>Piece glyphs\<close>

text \<open>
  C6. The claim: a board with one piece gives exactly one piece draw, with the glyph of
  the piece's colour and type, whose view box offset is the negated pixel coordinates of
  the square's grid cell. The source emits one piece draw with the glyph of the piece
  (the document stored as \<^verbatim>\<open>pieces/wK.svg\<close> for a white king), but \<open>pieceXML\<close> is
  handed the grid indices: for a white king on square 4 (grid cell (4, 7), whose pixel
  coordinates with squares of 45 units are (180, 315)) the view box starts at
  \<open>-4 -7\<close>.
\<close>

theorem viewbox_offset_is_grid_index:
  \<open>xyForSquare 4 = (4, 7)
   \<and> sqWidth default_config = 45 \<and> sqHeight default_config = 45
   \<and> (\<exists>tr. Encode default_encoder [4 \<mapsto> Piece White King] demo_assets quiet = Inr (tr, None)
         \<and> filter is_piece_draw tr = [WriteString (new_tag (- 4) (- 7) @ ''pieces/wK.svg'')])
   \<and> new_tag (- 4) (- 7) =
       ''<svg xmlns="http://www.w3.org/2000/svg" version="1.1" width="360" height="360" viewBox="-4 -7 360 360">''\<close>
proof -
  let ?b = "[4 \<mapsto> Piece White King]"
  have c: "cfg default_encoder = Some default_config"
    by (simp add: default_encoder_def)
  have run: "Encode default_encoder ?b demo_assets quiet
             = Inr (completed_trace default_encoder ?b demo_assets, None)"
    by (rule Encode_total [OF c]) (simp add: demo_assets_def quiet_def)
  have ev: "piece_events ?b demo_assets
            = (\<lambda>k. if k = 4 then [WriteString (new_tag (- 4) (- 7) @ ''pieces/wK.svg'')] else [])"
    by (rule ext)
      (simp add: piece_events_def piece_at_def pieceXML_demo xyForSquare_def File_def Rank_def)
  have "filter is_piece_draw (completed_trace default_encoder ?b demo_assets)
        = [WriteString (new_tag (- 4) (- 7) @ ''pieces/wK.svg'')]"
    by (simp add: pieces_completed [OF c] ev blocks_only)
  moreover have "xyForSquare 4 = (4, 7)"
    by (simp add: xyForSquare_def File_def Rank_def)
  moreover have \<open>new_tag (- 4) (- 7) =
       ''<svg xmlns="http://www.w3.org/2000/svg" version="1.1" width="360" height="360" viewBox="-4 -7 360 360">''\<close>
    using fmt_d_digit_neg [of 4] fmt_d_digit_neg [of 7]
    by (simp add: new_tag_def hex_digit_def)
  ultimately show ?thesis
    using run by (simp add: default_config_def)
qed

subsection \<open>Marked squares\<close>



subsection \<open>Hexadecimal colours\<close>

text \<open>
  C8. With the default configuration, light = RGB(235,209,166) and dark = RGB(165,117,81),
  the colour-to-hex conversion used for the fill styles gives exactly \<^verbatim>\<open>#ebd1a6\<close> for
  the light colour and \<^verbatim>\<open>#a57551\<close> for the dark colour.
\<close>

theorem default_colors_hex:
  "light default_config = RGBA 235 209 166 1
   \<and> dark default_config = RGBA 165 117 81 1
   \<and> colorToHex (light default_config) = ''#ebd1a6''
   \<and> colorToHex (dark default_config) = ''#a57551''"
  by (simp add: default_config_def colorToHex_def fmt_02x_def hex_digit_def uint8_of_float_def)

subsection \<open>The flip option\<close>

text \<open>
  C10. Adding the \<open>Flip\<close> option changes the flip flag of the configuration and nothing
  else: \<open>Flip\<close> returns the configuration with the flag set and the encoder as it was;
  the configuration that the options of a list build with \<open>Flip\<close> appended is the one
  they build without it, with the flag set; \<open>Encode\<close> gives the same calls and the
  same result whatever the flag of its configuration, since no helper of the loop reads
  it; and for every list of exported options, \<open>new\<close> and \<open>SVG\<close> give the same
  result with \<open>Flip\<close> appended as without it.
\<close>

theorem flip_changes_nothing_drawn:
  "Flip c e = Inr (c\<lparr>flip := True\<rparr>, e)
   \<and> apply_to_scratch (opts @ [Flip]) c
       = map_sum id (\<lambda>c'. c'\<lparr>flip := True\<rparr>) (apply_to_scratch opts c)
   \<and> Encode (e\<lparr>cfg := Some (c\<lparr>flip := v\<rparr>)\<rparr>) b as snk = Encode (e\<lparr>cfg := Some c\<rparr>) b as snk
   \<and> new (map option_of vs @ [Flip]) = new (map option_of vs)
   \<and> SVG as snk b (map option_of vs @ [Flip]) = SVG as snk b (map option_of vs)"
proof -
  have "Flip c e = Inr (c\<lparr>flip := True\<rparr>, e)"
    by (simp add: Flip_def)
  moreover have "apply_to_scratch (opts @ [Flip]) c
                 = map_sum id (\<lambda>c'. c'\<lparr>flip := True\<rparr>) (apply_to_scratch opts c)"
    by (cases "apply_to_scratch opts c") (simp_all add: apply_to_scratch_append Flip_def)
  moreover have "Encode (e\<lparr>cfg := Some (c\<lparr>flip := v\<rparr>)\<rparr>) b as snk
                 = Encode (e\<lparr>cfg := Some c\<rparr>) b as snk"
    by (simp add: Encode_def boardSize_def encode_loop_flip)
  moreover have "SVG as snk b (map option_of vs @ [Flip]) = SVG as snk b (map option_of vs)"
    by (simp add: SVG_def new_append_Flip)
  ultimately show ?thesis
    by (simp add: new_append_Flip)
qed

end
